theory Spec2Isabelle
  imports Complex_Main
begin

section \<open>Strings and thrown values\<close>

text \<open>
  \<open>String.prototype.includes\<close>: \<open>str_includes s pat\<close> holds when \<open>pat\<close> occurs in
  \<open>s\<close> as a contiguous run of characters. The comparison is case sensitive, as in the
  source, and every search pattern of the source is plain ASCII.
\<close>

fun starts_with :: "string \<Rightarrow> string \<Rightarrow> bool" where
  "starts_with s [] = True"
| "starts_with [] (p # ps) = False"
| "starts_with (c # cs) (p # ps) = (c = p \<and> starts_with cs ps)"

fun str_includes :: "string \<Rightarrow> string \<Rightarrow> bool" where
  "str_includes [] pat = (pat = [])"
| "str_includes (c # cs) pat = (starts_with (c # cs) pat \<or> str_includes cs pat)"

text \<open>
  A thrown value. Every value thrown on the paths modelled here is an \<open>Error\<close> object
  (of the ledger client library, of the runtime, or made by \<open>new Error(...)\<close> in the
  source), and the source reads only its \<open>message\<close>, a string.
\<close>

datatype js_error = JsError (message: string)

text \<open>\<open>error.message?.includes(pat)\<close> and \<open>error.message.includes(pat)\<close>.\<close>

definition message_includes :: "js_error \<Rightarrow> string \<Rightarrow> bool" where
  "message_includes error pat = str_includes (message error) pat"

section \<open>One submission attempt\<close>

text \<open>
  What the ledger and the wallet do during one pass through the \<open>try\<close> block of
  \<open>sendAndConfirmTransaction\<close> and of \<open>sendTransactionWithRetry\<close>:
  \<^item> \<open>PrepareThrows e\<close>: \<open>getLatestBlockhash\<close>, signing or serialising throws \<open>e\<close>
    before the send call is reached;
  \<^item> \<open>SendThrows e\<close>: the send call (\<open>connection.sendRawTransaction\<close>, respectively
    \<open>wallet.sendTransaction\<close>) rejects with \<open>e\<close>;
  \<^item> \<open>SendReturns sig c\<close>: the send call returns the signature \<open>sig\<close> and the
    confirmation promise settles as \<open>c\<close>.
  The confirmation promise races \<open>connection.confirmTransaction\<close> against a timer of
  \<open>maxTimeout\<close> milliseconds.
\<close>

datatype confirmation =
    ConfirmedOk
  | ConfirmedWithErr string
  | ConfirmThrows js_error
  | TimerFired

datatype attempt_world =
    PrepareThrows js_error
  | SendThrows js_error
  | SendReturns string confirmation

text \<open>The observable steps of a run, in program order.\<close>

datatype event =
    Send int
  | SendFailed int
  | ConfirmSettled int
  | Delay int int

definition timeout_error :: js_error where
  "timeout_error = JsError ''Transaction confirmation timeout''"

definition unknown_reason_error :: js_error where
  "unknown_reason_error = JsError ''Transaction failed for unknown reason''"

text \<open>
  The value the confirmation promise settles with: resolved (\<open>Inr\<close>) or rejected with
  an error. \<open>ConfirmedWithErr j\<close> carries \<open>JSON.stringify(confirmation.value.err)\<close>.
\<close>

fun confirmationPromise :: "confirmation \<Rightarrow> js_error + unit" where
  "confirmationPromise ConfirmedOk = Inr ()"
| "confirmationPromise (ConfirmedWithErr j) =
     Inl (JsError (''Transaction confirmed but failed: '' @ j))"
| "confirmationPromise (ConfirmThrows e) = Inl e"
| "confirmationPromise TimerFired = Inl timeout_error"

text \<open>
  The body of the \<open>try\<close> block for attempt number \<open>attempt\<close> (already incremented):
  the events it produces, and the signature it returns or the error it throws.
\<close>

fun try_attempt :: "int \<Rightarrow> attempt_world \<Rightarrow> event list \<times> (js_error + string)" where
  "try_attempt attempt (PrepareThrows e) = ([], Inl e)"
| "try_attempt attempt (SendThrows e) = ([Send attempt, SendFailed attempt], Inl e)"
| "try_attempt attempt (SendReturns signature c) =
     ([Send attempt, ConfirmSettled attempt],
      (case confirmationPromise c of Inl e \<Rightarrow> Inl e | Inr _ \<Rightarrow> Inr signature))"

definition isBlockhashError :: "js_error \<Rightarrow> bool" where
  "isBlockhashError error \<longleftrightarrow>
     message_includes error ''block height exceeded'' \<or>
     message_includes error ''blockhash not found'' \<or>
     message_includes error ''invalid blockhash''"

text \<open>\<open>Math.min(1000 * Math.pow(2, attempt - 1), 8000)\<close>, for \<open>attempt \<ge> 1\<close>.\<close>

definition retry_delay :: "int \<Rightarrow> int" where
  "retry_delay attempt = min (1000 * 2 ^ nat (attempt - 1)) 8000"

section \<open>The retry loops\<close>

text \<open>
  \<open>sendAndConfirmTransaction\<close> (transaction-helper): the \<open>while (attempt < maxRetries)\<close>
  loop with its \<open>catch\<close> chain. The world answers attempt number \<open>a\<close> with \<open>w a\<close>.
  The result is the trace of events and the returned signature (\<open>Inr\<close>) or the thrown
  error (\<open>Inl\<close>).
\<close>

function sendAndConfirmTransaction_loop ::
  "(int \<Rightarrow> attempt_world) \<Rightarrow> int \<Rightarrow> int \<Rightarrow> js_error option \<Rightarrow> event list \<times> (js_error + string)"
where
  "sendAndConfirmTransaction_loop w maxRetries attempt0 lastError =
     (if attempt0 < maxRetries then
        (let attempt = attempt0 + 1 in
         case try_attempt attempt (w attempt) of
           (evs, Inr signature) \<Rightarrow> (evs, Inr signature)
         | (evs, Inl error) \<Rightarrow>
             if isBlockhashError error \<and> attempt < maxRetries then
               (case sendAndConfirmTransaction_loop w maxRetries attempt (Some error) of
                  (rest, r) \<Rightarrow> (evs @ [Delay attempt (retry_delay attempt)] @ rest, r))
             else if message_includes error ''Token Account not found'' then (evs, Inl error)
             else if message_includes error ''insufficient funds'' then (evs, Inl error)
             else if attempt \<ge> maxRetries then (evs, Inl error)
             else (evs, Inl error))
      else ([], Inl (case lastError of Some e \<Rightarrow> e | None \<Rightarrow> unknown_reason_error)))"
  by pat_completeness auto
termination
  by (relation "measure (\<lambda>(w, maxRetries, attempt0, lastError). nat (maxRetries - attempt0))") auto

declare sendAndConfirmTransaction_loop.simps [simp del]

definition sendAndConfirmTransaction ::
  "(int \<Rightarrow> attempt_world) \<Rightarrow> int \<Rightarrow> event list \<times> (js_error + string)" where
  "sendAndConfirmTransaction w maxRetries = sendAndConfirmTransaction_loop w maxRetries 0 None"

text \<open>
  \<open>sendTransactionWithRetry\<close> (transaction-utility): the same loop with a two-way
  \<open>catch\<close>. The flag \<open>success\<close> of the loop condition is set only on the line before
  \<open>return\<close>, so it is false at every test of the condition.
\<close>

function sendTransactionWithRetry_loop ::
  "(int \<Rightarrow> attempt_world) \<Rightarrow> int \<Rightarrow> int \<Rightarrow> js_error option \<Rightarrow> event list \<times> (js_error + string)"
where
  "sendTransactionWithRetry_loop w maxRetries attempt0 lastError =
     (if attempt0 < maxRetries then
        (let attempt = attempt0 + 1 in
         case try_attempt attempt (w attempt) of
           (evs, Inr signature) \<Rightarrow> (evs, Inr signature)
         | (evs, Inl error) \<Rightarrow>
             if attempt < maxRetries \<and> isBlockhashError error then
               (case sendTransactionWithRetry_loop w maxRetries attempt (Some error) of
                  (rest, r) \<Rightarrow> (evs @ [Delay attempt (retry_delay attempt)] @ rest, r))
             else (evs, Inl error))
      else ([], Inl (case lastError of Some e \<Rightarrow> e | None \<Rightarrow> unknown_reason_error)))"
  by pat_completeness auto
termination
  by (relation "measure (\<lambda>(w, maxRetries, attempt0, lastError). nat (maxRetries - attempt0))") auto

declare sendTransactionWithRetry_loop.simps [simp del]

definition sendTransactionWithRetry ::
  "(int \<Rightarrow> attempt_world) \<Rightarrow> int \<Rightarrow> event list \<times> (js_error + string)" where
  "sendTransactionWithRetry w maxRetries = sendTransactionWithRetry_loop w maxRetries 0 None"

text \<open>
  Predicates on traces. An attempt is pending from its \<open>Send\<close> until the send call
  fails or its confirmation promise settles; \<open>in_order p evs\<close> holds when, starting with
  \<open>p\<close> pending, no \<open>Send\<close> of \<open>evs\<close> happens while an attempt is pending.
\<close>

fun is_send :: "event \<Rightarrow> bool" where
  "is_send (Send a) = True"
| "is_send (SendFailed a) = False"
| "is_send (ConfirmSettled a) = False"
| "is_send (Delay a d) = False"

fun in_order :: "int option \<Rightarrow> event list \<Rightarrow> bool" where
  "in_order p [] = True"
| "in_order p (Send a # evs) = (p = None \<and> in_order (Some a) evs)"
| "in_order p (SendFailed a # evs) = (p = Some a \<and> in_order None evs)"
| "in_order p (ConfirmSettled a # evs) = (p = Some a \<and> in_order None evs)"
| "in_order p (Delay a d # evs) = in_order p evs"

text \<open>
  The retry test of both \<open>catch\<close> blocks, for attempt number \<open>attempt\<close>: the attempt
  failed with a blockhash error and another attempt is allowed.
\<close>

definition attempt_retried :: "(int \<Rightarrow> attempt_world) \<Rightarrow> int \<Rightarrow> int \<Rightarrow> bool" where
  "attempt_retried w maxRetries attempt =
     (case snd (try_attempt attempt (w attempt)) of
        Inl error \<Rightarrow> isBlockhashError error \<and> attempt < maxRetries
      | Inr signature \<Rightarrow> False)"

section \<open>The precondition resolver\<close>

text \<open>
  \<open>getOrCreateAssociatedTokenAccount\<close> (token-helper). \<open>getAssociatedTokenAddress\<close> is
  the address derivation of the token library, a function of mint and owner that may
  throw; \<open>connection.getAccountInfo\<close> answers with an account, with \<open>null\<close>, or throws.
\<close>

datatype account_info =
    AccountExists
  | AccountNull
  | GetAccountInfoThrows js_error

text \<open>The \<open>try\<close> block: the creation transaction goes through
  \<open>sendAndConfirmTransaction\<close> with \<open>maxRetries: 3\<close>.\<close>

definition getOrCreate_try ::
  "(string \<Rightarrow> string \<Rightarrow> js_error + string) \<Rightarrow> account_info \<Rightarrow> (int \<Rightarrow> attempt_world) \<Rightarrow>
   string \<Rightarrow> string \<Rightarrow> js_error + string" where
  "getOrCreate_try getAssociatedTokenAddress tokenAccount w mint owner =
     (case getAssociatedTokenAddress mint owner of
        Inl e \<Rightarrow> Inl e
      | Inr associatedTokenAddress \<Rightarrow>
          (case tokenAccount of
             AccountExists \<Rightarrow> Inr associatedTokenAddress
           | _ \<Rightarrow>
               (case snd (sendAndConfirmTransaction w 3) of
                  Inl e \<Rightarrow> Inl e
                | Inr signature \<Rightarrow> Inr associatedTokenAddress)))"

definition getOrCreateAssociatedTokenAccount ::
  "(string \<Rightarrow> string \<Rightarrow> js_error + string) \<Rightarrow> account_info \<Rightarrow> (int \<Rightarrow> attempt_world) \<Rightarrow>
   string \<Rightarrow> string \<Rightarrow> js_error + string" where
  "getOrCreateAssociatedTokenAccount getAssociatedTokenAddress tokenAccount w mint owner =
     (case getOrCreate_try getAssociatedTokenAddress tokenAccount w mint owner of
        Inr address \<Rightarrow> Inr address
      | Inl error \<Rightarrow>
          if \<not> message_includes error ''already in use'' then Inl error
          else getAssociatedTokenAddress mint owner)"

section \<open>The connection pool\<close>

text \<open>
  The module state of connection-helper: \<open>connectionCache\<close>, \<open>connectionPool\<close> and
  \<open>connectionInitialized\<close>. Objects made by \<open>new Connection\<close> are told apart by
  \<open>conn_id\<close>, taken from the allocation counter \<open>allocated\<close>.
\<close>

record connection =
  conn_id :: nat
  conn_endpoint :: string
  conn_commitment :: string

record pool_state =
  connectionCache :: "string \<rightharpoonup> connection"
  connectionPool :: "connection list"
  connectionInitialized :: bool
  allocated :: nat

definition initial_pool_state :: pool_state where
  "initial_pool_state =
     \<lparr>connectionCache = Map.empty, connectionPool = [], connectionInitialized = False,
      allocated = 0\<rparr>"

text \<open>The \<open>for\<close> loop of \<open>initConnectionPool\<close>: \<open>n\<close> more rounds of \<open>push\<close>.\<close>

fun push_connections :: "string \<Rightarrow> nat \<Rightarrow> pool_state \<Rightarrow> pool_state" where
  "push_connections endpoint 0 st = st"
| "push_connections endpoint (Suc n) st =
     push_connections endpoint n
       (st\<lparr>connectionPool :=
             connectionPool st @
               [\<lparr>conn_id = allocated st, conn_endpoint = endpoint,
                 conn_commitment = ''confirmed''\<rparr>],
           allocated := Suc (allocated st)\<rparr>)"

text \<open>
  \<open>hasWindow\<close> is \<open>typeof window !== 'undefined'\<close>. The pre-warm callback scheduled at
  the end calls \<open>initConnectionPool\<close> again, which returns at once because the flag is
  already set.
\<close>

definition initConnectionPool :: "bool \<Rightarrow> string \<Rightarrow> nat \<Rightarrow> pool_state \<Rightarrow> pool_state" where
  "initConnectionPool hasWindow endpoint size' st =
     (if \<not> hasWindow then st
      else if connectionInitialized st then st
      else push_connections endpoint size' (st\<lparr>connectionInitialized := True\<rparr>))"

definition getCachedConnection ::
  "string \<Rightarrow> string \<Rightarrow> pool_state \<Rightarrow> connection \<times> pool_state" where
  "getCachedConnection endpoint commitment st =
     (if length (connectionPool st) > 0 then (connectionPool st ! 0, st)
      else
        (let cacheKey = endpoint @ ''-'' @ commitment in
         case connectionCache st cacheKey of
           Some c \<Rightarrow> (c, st)
         | None \<Rightarrow>
             (let c = \<lparr>conn_id = allocated st, conn_endpoint = endpoint,
                       conn_commitment = commitment\<rparr>
              in (c, st\<lparr>connectionCache := (connectionCache st)(cacheKey \<mapsto> c),
                       allocated := Suc (allocated st)\<rparr>))))"

datatype pool_op =
    InitPool string nat
  | GetConnection string string

fun pool_step :: "bool \<Rightarrow> pool_op \<Rightarrow> pool_state \<Rightarrow> pool_state" where
  "pool_step hasWindow (InitPool endpoint size') st = initConnectionPool hasWindow endpoint size' st"
| "pool_step hasWindow (GetConnection endpoint commitment) st =
     snd (getCachedConnection endpoint commitment st)"

fun pool_run :: "bool \<Rightarrow> pool_op list \<Rightarrow> pool_state \<Rightarrow> pool_state" where
  "pool_run hasWindow [] st = st"
| "pool_run hasWindow (op # ops) st = pool_run hasWindow ops (pool_step hasWindow op st)"

fun init_size_le :: "nat \<Rightarrow> pool_op \<Rightarrow> bool" where
  "init_size_le n (InitPool endpoint size') = (size' \<le> n)"
| "init_size_le n (GetConnection endpoint commitment) = True"

section \<open>The confirmation awaiter\<close>

text \<open>
  \<open>confirmTransactionWithExponentialBackoff\<close> (token-creator). Poll number \<open>r\<close> (the
  \<open>connection.confirmTransaction\<close> call made when \<open>retries = r\<close>) takes \<open>fst (poll r)\<close>
  milliseconds and returns a result or throws, \<open>snd (poll r)\<close>. A timer set for
  \<open>delay\<close> milliseconds fires no earlier than that, so the clock read by \<open>Date.now()\<close>
  advances by the whole milliseconds of \<open>delay\<close> plus \<open>oversleep r\<close>.
\<close>

datatype signature_result = SignatureResult (err: "string option")

text \<open>
  \<open>Math.min(1000 * Math.pow(1.5, retries), 10000)\<close>. The value is the same in
  double precision and in exact arithmetic: below the cap (\<open>retries \<le> 5\<close>) the product
  is a small multiple of a power of \<open>1/2\<close>, and from \<open>retries = 6\<close> on it is above
  the cap.
\<close>

definition poll_delay :: "nat \<Rightarrow> rat" where
  "poll_delay retries = min (1000 * (3 / 2) ^ retries) 10000"

function confirm_loop ::
  "(nat \<Rightarrow> nat \<times> (js_error + signature_result)) \<Rightarrow> (nat \<Rightarrow> nat) \<Rightarrow> int \<Rightarrow> nat \<Rightarrow> nat \<Rightarrow>
   rat list \<times> signature_result option"
where
  "confirm_loop poll oversleep timeoutMs elapsed retries =
     (if int elapsed < timeoutMs then
        (case snd (poll retries) of
           Inr confirmResult \<Rightarrow> ([], Some confirmResult)
         | Inl error \<Rightarrow>
             (let delay = poll_delay retries;
                  elapsed' = elapsed + fst (poll retries) + nat \<lfloor>delay\<rfloor> + oversleep retries
              in case confirm_loop poll oversleep timeoutMs elapsed' (retries + 1) of
                   (delays, r) \<Rightarrow> (delay # delays, r)))
      else ([], None))"
  by pat_completeness auto
termination
proof (relation "measure (\<lambda>(poll, oversleep, timeoutMs, elapsed, retries). nat (timeoutMs - int elapsed))",
    goal_cases)
  case 1
  show ?case by simp
next
  case (2 poll oversleep timeoutMs elapsed retries error delay elapsed')
  have "(1::rat) \<le> (3 / 2) ^ retries"
    by (rule one_le_power) simp
  then have "(1000::rat) \<le> poll_delay retries"
    by (simp add: poll_delay_def)
  then have "1000 \<le> \<lfloor>poll_delay retries\<rfloor>"
    by (simp add: le_floor_iff)
  then have "int elapsed < int elapsed'"
    using 2 by linarith
  with 2 show ?case by simp
qed

declare confirm_loop.simps [simp del]

text \<open>\<open>String(n)\<close> for an integer \<open>n\<close>, as the template literal of the timeout message
  renders \<open>timeoutMs\<close>.\<close>

function show_nat :: "nat \<Rightarrow> string" where
  "show_nat n =
     (if n < 10 then [''0123456789'' ! n]
      else show_nat (n div 10) @ [''0123456789'' ! (n mod 10)])"
  by pat_completeness auto
termination
  by (relation "measure id") auto

declare show_nat.simps [simp del]

definition number_toString :: "int \<Rightarrow> string" where
  "number_toString i = (if i < 0 then CHR ''-'' # show_nat (nat (- i)) else show_nat (nat i))"

definition confirmation_timed_out :: "int \<Rightarrow> js_error" where
  "confirmation_timed_out timeoutMs =
     JsError (''Transaction confirmation timed out after '' @ number_toString timeoutMs @ ''ms'')"

definition confirmTransactionWithExponentialBackoff ::
  "(nat \<Rightarrow> nat \<times> (js_error + signature_result)) \<Rightarrow> (nat \<Rightarrow> nat) \<Rightarrow> int \<Rightarrow>
   rat list \<times> (js_error + signature_result)" where
  "confirmTransactionWithExponentialBackoff poll oversleep timeoutMs =
     (case confirm_loop poll oversleep timeoutMs 0 0 of
        (delays, None) \<Rightarrow> (delays, Inl (confirmation_timed_out timeoutMs))
      | (delays, Some confirmResult) \<Rightarrow> (delays, Inr confirmResult))"

text \<open>
  The clock at the top of the loop when \<open>retries = k\<close>: the first \<open>k\<close> polls with
  the waits that followed them.
\<close>

fun elapsed_after :: "(nat \<Rightarrow> nat \<times> (js_error + signature_result)) \<Rightarrow> (nat \<Rightarrow> nat) \<Rightarrow> nat \<Rightarrow> nat" where
  "elapsed_after poll oversleep 0 = 0"
| "elapsed_after poll oversleep (Suc k) =
     elapsed_after poll oversleep k + fst (poll k) + nat \<lfloor>poll_delay k\<rfloor> + oversleep k"

definition poll_fails :: "(nat \<Rightarrow> nat \<times> (js_error + signature_result)) \<Rightarrow> nat \<Rightarrow> bool" where
  "poll_fails poll k = (case snd (poll k) of Inl error \<Rightarrow> True | Inr confirmResult \<Rightarrow> False)"

section \<open>The transaction history store\<close>

datatype TransactionType = TypeCreate | TypeMint | TypeSend

datatype TransactionStatus = StatusSuccess | StatusError | StatusPending

record transaction =
  tx_id :: string
  tx_type :: TransactionType
  tokenName :: "string option"
  tokenSymbol :: "string option"
  amount :: "rat option"
  mintAddress :: string
  recipient :: "string option"
  timestamp :: int
  status :: TransactionStatus

record transaction_store =
  transactions :: "transaction list"

definition empty_store :: transaction_store where
  "empty_store = \<lparr>transactions = []\<rparr>"

text \<open>\<open>[transaction, ...state.transactions].slice(0, 50)\<close>\<close>

definition addTransaction :: "transaction \<Rightarrow> transaction_store \<Rightarrow> transaction_store" where
  "addTransaction t state = state\<lparr>transactions := take 50 (t # transactions state)\<rparr>"

definition clearTransactions :: "transaction_store \<Rightarrow> transaction_store" where
  "clearTransactions state = state\<lparr>transactions := []\<rparr>"

datatype store_op =
    AddTransaction transaction
  | ClearTransactions

fun store_step :: "store_op \<Rightarrow> transaction_store \<Rightarrow> transaction_store" where
  "store_step (AddTransaction t) state = addTransaction t state"
| "store_step ClearTransactions state = clearTransactions state"

fun store_run :: "store_op list \<Rightarrow> transaction_store \<Rightarrow> transaction_store" where
  "store_run [] state = state"
| "store_run (x # xs) state = store_run xs (store_step x state)"

text \<open>
  The reference order: every transaction added since the last clear, the most recently
  added first, with nothing dropped. \<open>acc\<close> holds what was added so far.
\<close>

fun newest_first :: "store_op list \<Rightarrow> transaction list \<Rightarrow> transaction list" where
  "newest_first [] acc = acc"
| "newest_first (AddTransaction t # xs) acc = newest_first xs (t # acc)"
| "newest_first (ClearTransactions # xs) acc = newest_first xs []"

section \<open>Concrete ledgers\<close>

text \<open>Every attempt is sent and its validity window lapses before confirmation.\<close>

definition expiring_world :: "int \<Rightarrow> attempt_world" where
  "expiring_world a =
     SendReturns ''sigA'' (ConfirmThrows (JsError ''Signature sigA has expired: block height exceeded.''))"

text \<open>The first attempt lands although the client sees its window lapse; the second
  submission is refused as a duplicate.\<close>

definition landed_world :: "int \<Rightarrow> attempt_world" where
  "landed_world a =
     (if a = 1 then
        SendReturns ''sigA'' (ConfirmThrows (JsError ''Signature sigA has expired: block height exceeded.''))
      else SendThrows (JsError ''Transaction simulation failed: This transaction has already been processed''))"

text \<open>Every attempt is sent and the confirmation timer fires first.\<close>

definition timeout_world :: "int \<Rightarrow> attempt_world" where
  "timeout_world a = SendReturns ''sigA'' TimerFired"

text \<open>Every attempt is sent and confirmed.\<close>

definition confirming_world :: "int \<Rightarrow> attempt_world" where
  "confirming_world a = SendReturns ''sigA'' ConfirmedOk"

text \<open>The first send is refused with a message that names both a stale blockhash and
  a lack of funds; later attempts are confirmed.\<close>

definition mixed_message_world :: "int \<Rightarrow> attempt_world" where
  "mixed_message_world a =
     (if a = 1 then
        SendThrows (JsError ''Simulation failed: blockhash not found; insufficient funds for fee'')
      else SendReturns ''sigB'' ConfirmedOk)"

text \<open>Every send is refused for lack of funds.\<close>

definition insufficient_world :: "int \<Rightarrow> attempt_world" where
  "insufficient_world a =
     SendThrows (JsError ''Transfer: insufficient funds for fee'')"

text \<open>The creation is refused because a concurrent creator was first.\<close>

definition racing_world :: "int \<Rightarrow> attempt_world" where
  "racing_world a =
     SendThrows (JsError ''Allocate: account Address already in use'')"

definition derive_address :: "string \<Rightarrow> string \<Rightarrow> js_error + string" where
  "derive_address mint owner = Inr (''ata:'' @ mint @ '':'' @ owner)"

text \<open>No poll ever answers: each call throws after 30 seconds.\<close>

definition silent_poll :: "nat \<Rightarrow> nat \<times> (js_error + signature_result)" where
  "silent_poll r = (30000, Inl (JsError ''Transaction was not confirmed in 30.00 seconds''))"

text \<open>The first two polls throw at once, the third answers.\<close>

definition third_poll_answers :: "nat \<Rightarrow> nat \<times> (js_error + signature_result)" where
  "third_poll_answers r =
     (if r < 2 then (5, Inl (JsError ''fetch failed'')) else (200, Inr (SignatureResult None)))"

text \<open>The first poll answers, after five seconds.\<close>

definition late_answer :: "nat \<Rightarrow> nat \<times> (js_error + signature_result)" where
  "late_answer r = (5000, Inr (SignatureResult None))"

definition no_oversleep :: "nat \<Rightarrow> nat" where
  "no_oversleep r = 0"

section \<open>Unfolding the retry loops\<close>

lemma sact_stop:
  "\<not> attempt0 < maxRetries \<Longrightarrow>
   sendAndConfirmTransaction_loop w maxRetries attempt0 lastError =
     ([], Inl (case lastError of Some e \<Rightarrow> e | None \<Rightarrow> unknown_reason_error))"
  by (subst sendAndConfirmTransaction_loop.simps) simp

lemma sact_return:
  "attempt0 < maxRetries \<Longrightarrow> try_attempt (attempt0 + 1) (w (attempt0 + 1)) = (evs, Inr s) \<Longrightarrow>
   sendAndConfirmTransaction_loop w maxRetries attempt0 lastError = (evs, Inr s)"
  by (subst sendAndConfirmTransaction_loop.simps) simp

lemma sact_retry:
  "attempt0 < maxRetries \<Longrightarrow> try_attempt (attempt0 + 1) (w (attempt0 + 1)) = (evs, Inl e) \<Longrightarrow>
   isBlockhashError e \<Longrightarrow> attempt0 + 1 < maxRetries \<Longrightarrow>
   sendAndConfirmTransaction_loop w maxRetries attempt0 lastError =
     (evs @ [Delay (attempt0 + 1) (retry_delay (attempt0 + 1))] @
        fst (sendAndConfirmTransaction_loop w maxRetries (attempt0 + 1) (Some e)),
      snd (sendAndConfirmTransaction_loop w maxRetries (attempt0 + 1) (Some e)))"
  by (subst sendAndConfirmTransaction_loop.simps) (simp add: case_prod_beta Let_def)

lemma sact_throw:
  "attempt0 < maxRetries \<Longrightarrow> try_attempt (attempt0 + 1) (w (attempt0 + 1)) = (evs, Inl e) \<Longrightarrow>
   \<not> (isBlockhashError e \<and> attempt0 + 1 < maxRetries) \<Longrightarrow>
   sendAndConfirmTransaction_loop w maxRetries attempt0 lastError = (evs, Inl e)"
  by (subst sendAndConfirmTransaction_loop.simps) auto

text \<open>
  The two loops differ only in how the \<open>catch\<close> block words its branches: every branch
  of \<open>sendAndConfirmTransaction\<close> other than the retry rethrows the error, as the single
  \<open>else\<close> of \<open>sendTransactionWithRetry\<close> does.
\<close>

lemma swr_eq_sact:
  "sendTransactionWithRetry_loop w maxRetries attempt0 lastError =
   sendAndConfirmTransaction_loop w maxRetries attempt0 lastError"
proof (induction w maxRetries attempt0 lastError rule: sendTransactionWithRetry_loop.induct)
  case (1 w maxRetries attempt0 lastError)
  show ?case
  proof (cases "attempt0 < maxRetries")
    case False
    then show ?thesis
      by (subst sendTransactionWithRetry_loop.simps) (simp add: sact_stop)
  next
    case lt: True
    obtain evs r where ta: "try_attempt (attempt0 + 1) (w (attempt0 + 1)) = (evs, r)"
      by force
    show ?thesis
    proof (cases r)
      case (Inr s)
      with lt ta show ?thesis
        by (subst sendTransactionWithRetry_loop.simps) (simp add: sact_return)
    next
      case (Inl e)
      show ?thesis
      proof (cases "isBlockhashError e \<and> attempt0 + 1 < maxRetries")
        case False
        with lt ta Inl show ?thesis
          by (subst sendTransactionWithRetry_loop.simps) (auto simp add: sact_throw)
      next
        case True
        then have c: "attempt0 + 1 < maxRetries \<and> isBlockhashError e" by simp
        note ih = "1.IH" [OF lt refl ta [symmetric] Inl c]
        from lt ta Inl True ih show ?thesis
          by (subst sendTransactionWithRetry_loop.simps)
             (simp add: sact_retry case_prod_beta Let_def)
      qed
    qed
  qed
qed

lemma swr_eq_sact_top: "sendTransactionWithRetry w maxRetries = sendAndConfirmTransaction w maxRetries"
  by (simp add: sendTransactionWithRetry_def sendAndConfirmTransaction_def swr_eq_sact)

text \<open>
  An induction rule that follows the loop: it stops, returns, throws, or goes round
  again after a blockhash error.
\<close>

lemma retry_loop_induct [case_names stop return throw retry]:
  assumes stop: "\<And>attempt0 lastError. \<not> attempt0 < maxRetries \<Longrightarrow> P attempt0 lastError"
    and return: "\<And>attempt0 lastError evs s.
        attempt0 < maxRetries \<Longrightarrow> try_attempt (attempt0 + 1) (w (attempt0 + 1)) = (evs, Inr s) \<Longrightarrow>
        P attempt0 lastError"
    and throw: "\<And>attempt0 lastError evs e.
        attempt0 < maxRetries \<Longrightarrow> try_attempt (attempt0 + 1) (w (attempt0 + 1)) = (evs, Inl e) \<Longrightarrow>
        \<not> (isBlockhashError e \<and> attempt0 + 1 < maxRetries) \<Longrightarrow> P attempt0 lastError"
    and retry: "\<And>attempt0 lastError evs e.
        attempt0 < maxRetries \<Longrightarrow> try_attempt (attempt0 + 1) (w (attempt0 + 1)) = (evs, Inl e) \<Longrightarrow>
        isBlockhashError e \<Longrightarrow> attempt0 + 1 < maxRetries \<Longrightarrow> P (attempt0 + 1) (Some e) \<Longrightarrow>
        P attempt0 lastError"
  shows "P attempt0 lastError"
proof (induction "nat (maxRetries - attempt0)" arbitrary: attempt0 lastError rule: less_induct)
  case less
  show ?case
  proof (cases "attempt0 < maxRetries")
    case False
    then show ?thesis by (rule stop)
  next
    case lt: True
    obtain evs r where ta: "try_attempt (attempt0 + 1) (w (attempt0 + 1)) = (evs, r)"
      by force
    show ?thesis
    proof (cases r)
      case (Inr s)
      with lt ta show ?thesis by (auto intro: return)
    next
      case (Inl e)
      show ?thesis
      proof (cases "isBlockhashError e \<and> attempt0 + 1 < maxRetries")
        case False
        with lt ta Inl show ?thesis by (auto intro: throw)
      next
        case True
        from lt have "nat (maxRetries - (attempt0 + 1)) < nat (maxRetries - attempt0)"
          by simp
        then have "P (attempt0 + 1) (Some e)"
          by (rule less.hyps)
        with lt ta Inl True show ?thesis by (auto intro: retry)
      qed
    qed
  qed
qed

lemma try_attempt_events:
  "fst (try_attempt a x) = [] \<or> fst (try_attempt a x) = [Send a, SendFailed a] \<or>
   fst (try_attempt a x) = [Send a, ConfirmSettled a]"
  by (cases x) auto

lemma try_attempt_sends: "try_attempt a x = (evs, r) \<Longrightarrow> length (filter is_send evs) \<le> 1"
  using try_attempt_events [of a x] by auto


lemma try_attempt_in_order:
  "try_attempt a x = (evs, r) \<Longrightarrow> in_order None (evs @ rest) = in_order None rest"
  using try_attempt_events [of a x] by auto

lemma sact_sends:
  "int (length (filter is_send (fst (sendAndConfirmTransaction_loop w maxRetries attempt0 lastError))))
     \<le> max 0 (maxRetries - attempt0)"
proof (induction attempt0 lastError rule: retry_loop_induct [of maxRetries _ w])
  case (stop attempt0 lastError)
  then show ?case by (simp add: sact_stop)
next
  case (return attempt0 lastError evs s)
  then show ?case using try_attempt_sends [OF return(2)] by (simp add: sact_return)
next
  case (throw attempt0 lastError evs e)
  then show ?case using try_attempt_sends [OF throw(2)] by (simp add: sact_throw)
next
  case (retry attempt0 lastError evs e)
  then show ?case using try_attempt_sends [OF retry(2)] by (simp add: sact_retry)
qed

lemma sact_in_order:
  "in_order None (fst (sendAndConfirmTransaction_loop w maxRetries attempt0 lastError))"
proof (induction attempt0 lastError rule: retry_loop_induct [of maxRetries _ w])
  case (stop attempt0 lastError)
  then show ?case by (simp add: sact_stop)
next
  case (return attempt0 lastError evs s)
  then show ?case using try_attempt_in_order [OF return(2), of "[]"] by (simp add: sact_return)
next
  case (throw attempt0 lastError evs e)
  then show ?case using try_attempt_in_order [OF throw(2), of "[]"] by (simp add: sact_throw)
next
  case (retry attempt0 lastError evs e)
  then show ?case by (simp add: sact_retry try_attempt_in_order [OF retry(2)])
qed



text \<open>What the loop hands to the caller comes from one of its attempts.\<close>

lemma sact_result_origin:
  "(snd (sendAndConfirmTransaction_loop w maxRetries attempt0 lastError) = Inr s \<longrightarrow>
      (\<exists>a. attempt0 < a \<and> a \<le> maxRetries \<and> w a = SendReturns s ConfirmedOk)) \<and>
   (snd (sendAndConfirmTransaction_loop w maxRetries attempt0 lastError) = Inl e \<longrightarrow>
      (\<not> attempt0 < maxRetries \<and> e = (case lastError of Some x \<Rightarrow> x | None \<Rightarrow> unknown_reason_error)) \<or>
      (\<exists>a. attempt0 < a \<and> a \<le> maxRetries \<and> snd (try_attempt a (w a)) = Inl e))"
proof (induction attempt0 lastError rule: retry_loop_induct [of maxRetries _ w])
  case (stop attempt0 lastError)
  then show ?case by (simp add: sact_stop)
next
  case (return attempt0 lastError evs s')
  have "w (attempt0 + 1) = SendReturns s' ConfirmedOk"
  proof (cases "w (attempt0 + 1)")
    case (SendReturns sg c)
    with return(2) show ?thesis
      by (cases c) (auto simp: timeout_error_def)
  qed (use return(2) in auto)
  with return show ?case
    by (auto simp add: sact_return intro!: exI [of _ "attempt0 + 1"])
next
  case (throw attempt0 lastError evs e')
  then show ?case
    by (auto simp add: sact_throw intro!: exI [of _ "attempt0 + 1"])
next
  case (retry attempt0 lastError evs e')
  from retry(5) retry(4) have
    "(snd (sendAndConfirmTransaction_loop w maxRetries (attempt0 + 1) (Some e')) = Inr s \<longrightarrow>
        (\<exists>a. attempt0 < a \<and> a \<le> maxRetries \<and> w a = SendReturns s ConfirmedOk)) \<and>
     (snd (sendAndConfirmTransaction_loop w maxRetries (attempt0 + 1) (Some e')) = Inl e \<longrightarrow>
        (\<exists>a. attempt0 < a \<and> a \<le> maxRetries \<and> snd (try_attempt a (w a)) = Inl e))"
    by (auto intro: exI) (metis add_strict_increasing2 less_add_one zero_le_one order_less_imp_le less_trans)+
  with retry(1-4) show ?case
    by (simp add: sact_retry)
qed

lemma starts_with_length: "starts_with s p \<Longrightarrow> length p \<le> length s"
  by (induction s p rule: starts_with.induct) simp_all

lemma str_includes_length: "str_includes s p \<Longrightarrow> length p \<le> length s"
proof (induction s)
  case Nil
  then show ?case by simp
next
  case (Cons c cs)
  then show ?case
    using starts_with_length [of "c # cs" p] by auto
qed

lemma sact_lastError_irrelevant:
  assumes "attempt0 < maxRetries"
  shows "sendAndConfirmTransaction_loop w maxRetries attempt0 lastError =
         sendAndConfirmTransaction_loop w maxRetries attempt0 lastError'"
proof -
  obtain evs r where ta: "try_attempt (attempt0 + 1) (w (attempt0 + 1)) = (evs, r)"
    by force
  show ?thesis
  proof (cases r)
    case (Inr s)
    with assms ta show ?thesis by (simp add: sact_return)
  next
    case (Inl e)
    show ?thesis
    proof (cases "isBlockhashError e \<and> attempt0 + 1 < maxRetries")
      case True
      with assms ta Inl show ?thesis by (simp add: sact_retry)
    next
      case False
      with assms ta Inl show ?thesis by (simp add: sact_throw)
    qed
  qed
qed

lemma sact_after_retry:
  assumes "attempt0 < maxRetries" and "attempt_retried w maxRetries (attempt0 + 1)"
  shows "snd (sendAndConfirmTransaction_loop w maxRetries attempt0 lastError) =
         snd (sendAndConfirmTransaction_loop w maxRetries (attempt0 + 1) lastError')"
proof -
  obtain evs r where ta: "try_attempt (attempt0 + 1) (w (attempt0 + 1)) = (evs, r)"
    by force
  with assms(2) obtain e where e: "r = Inl e" "isBlockhashError e" "attempt0 + 1 < maxRetries"
    by (cases r) (auto simp add: attempt_retried_def)
  with assms(1) ta have
    "snd (sendAndConfirmTransaction_loop w maxRetries attempt0 lastError) =
     snd (sendAndConfirmTransaction_loop w maxRetries (attempt0 + 1) (Some e))"
    by (simp add: sact_retry)
  also have "\<dots> = snd (sendAndConfirmTransaction_loop w maxRetries (attempt0 + 1) lastError')"
    using e(3) sact_lastError_irrelevant [of "attempt0 + 1" maxRetries w "Some e" lastError']
    by simp
  finally show ?thesis .
qed

lemma sact_reach:
  "0 \<le> a \<Longrightarrow> a < maxRetries \<Longrightarrow>
   \<forall>k. 1 \<le> k \<and> k \<le> a \<longrightarrow> attempt_retried w maxRetries k \<Longrightarrow>
   snd (sendAndConfirmTransaction w maxRetries) =
   snd (sendAndConfirmTransaction_loop w maxRetries a lastError)"
proof (induction a arbitrary: lastError rule: int_ge_induct)
  case base
  then show ?case
    using sact_lastError_irrelevant [of 0 maxRetries w None lastError]
    by (simp add: sendAndConfirmTransaction_def)
next
  case (step i)
  from step.prems have lt: "i < maxRetries" and
    before: "\<forall>k. 1 \<le> k \<and> k \<le> i \<longrightarrow> attempt_retried w maxRetries k" and
    this_one: "attempt_retried w maxRetries (i + 1)"
    using step.hyps by auto
  from step.IH [OF lt before, of None] sact_after_retry [OF lt this_one, of None lastError]
  show ?case by simp
qed

lemma expiring_world_retried:
  "\<forall>k. 1 \<le> k \<and> k \<le> 2 \<longrightarrow> attempt_retried expiring_world 3 k"
proof (intro allI impI)
  fix k :: int
  assume "1 \<le> k \<and> k \<le> 2"
  then consider "k = 1" | "k = 2"
    by arith
  then show "attempt_retried expiring_world 3 k"
  proof cases
    case 1
    have "attempt_retried expiring_world 3 1" by code_simp
    with 1 show ?thesis by simp
  next
    case 2
    have "attempt_retried expiring_world 3 2" by code_simp
    with 2 show ?thesis by simp
  qed
qed

section \<open>The submission and retry state machine\<close>

lemma timeout_not_blockhash: "\<not> isBlockhashError timeout_error"
  by (simp add: isBlockhashError_def message_includes_def timeout_error_def)

lemma in_order_rejects_overlap:
  "\<not> in_order None [Send 1, Send 2, ConfirmSettled 1, ConfirmSettled 2]"
  by simp

text \<open>
  C1. For \<open>maxRetries = N\<close> with \<open>N \<ge> 1\<close>, a call of \<open>sendAndConfirmTransaction\<close> or of
  \<open>sendTransactionWithRetry\<close> invokes the send operation at most \<open>N\<close> times, and no send
  is started while an earlier attempt is pending: each \<open>Send\<close> of the trace comes after
  the previous attempt's send has failed or its confirmation promise has settled.
\<close>

theorem sends_bounded_and_sequential:
  assumes "1 \<le> maxRetries"
  shows "int (length (filter is_send (fst (sendAndConfirmTransaction w maxRetries)))) \<le> maxRetries \<and>
         in_order None (fst (sendAndConfirmTransaction w maxRetries)) \<and>
         int (length (filter is_send (fst (sendTransactionWithRetry w maxRetries)))) \<le> maxRetries \<and>
         in_order None (fst (sendTransactionWithRetry w maxRetries))"
proof -
  have "int (length (filter is_send (fst (sendAndConfirmTransaction w maxRetries)))) \<le> maxRetries"
    using sact_sends [of w maxRetries 0 None] assms
    by (simp add: sendAndConfirmTransaction_def)
  moreover have "in_order None (fst (sendAndConfirmTransaction w maxRetries))"
    by (simp add: sendAndConfirmTransaction_def sact_in_order)
  ultimately show ?thesis
    by (simp add: swr_eq_sact_top)
qed

theorem sends_bounded_and_sequential_witness:
  "(1::int) \<le> 3 \<and>
   fst (sendAndConfirmTransaction expiring_world 3) =
     [Send 1, ConfirmSettled 1, Delay 1 1000, Send 2, ConfirmSettled 2, Delay 2 2000,
      Send 3, ConfirmSettled 3] \<and>
   int (length (filter is_send (fst (sendAndConfirmTransaction expiring_world 3)))) \<le> 3 \<and>
   in_order None (fst (sendAndConfirmTransaction expiring_world 3)) \<and>
   int (length (filter is_send (fst (sendTransactionWithRetry expiring_world 3)))) \<le> 3 \<and>
   in_order None (fst (sendTransactionWithRetry expiring_world 3))"
proof -
  have "fst (sendAndConfirmTransaction expiring_world 3) =
     [Send 1, ConfirmSettled 1, Delay 1 1000, Send 2, ConfirmSettled 2, Delay 2 2000,
      Send 3, ConfirmSettled 3]"
    by code_simp
  then show ?thesis
    using sends_bounded_and_sequential [of 3 expiring_world] by simp
qed

text \<open>
  C2 as stated fails. The first attempt lands unobserved, the retry is refused as
  "already processed", and both functions throw that error; neither returns the
  original signature.
\<close>

theorem duplicate_submission_counterexample:
  "sendAndConfirmTransaction landed_world 3 =
     ([Send 1, ConfirmSettled 1, Delay 1 1000, Send 2, SendFailed 2],
      Inl (JsError ''Transaction simulation failed: This transaction has already been processed'')) \<and>
   sendTransactionWithRetry landed_world 3 =
     ([Send 1, ConfirmSettled 1, Delay 1 1000, Send 2, SendFailed 2],
      Inl (JsError ''Transaction simulation failed: This transaction has already been processed''))"
  by code_simp

text \<open>
  C2, amended. When an attempt fails with an error whose message says the transaction
  has already been processed, and the error is not retried as a blockhash error, both
  loops end at that attempt and throw the error unchanged; no success is reported.
\<close>

theorem already_processed_is_thrown:
  assumes "attempt0 < maxRetries"
    and "try_attempt (attempt0 + 1) (w (attempt0 + 1)) = (evs, Inl e)"
    and "message_includes e ''This transaction has already been processed''"
    and "\<not> (isBlockhashError e \<and> attempt0 + 1 < maxRetries)"
  shows "sendAndConfirmTransaction_loop w maxRetries attempt0 lastError = (evs, Inl e) \<and>
         sendTransactionWithRetry_loop w maxRetries attempt0 lastError = (evs, Inl e)"
  using assms by (simp add: swr_eq_sact sact_throw)

theorem already_processed_is_thrown_witness:
  "(1::int) < 3 \<and>
   try_attempt (1 + 1) (landed_world (1 + 1)) =
     ([Send 2, SendFailed 2],
      Inl (JsError ''Transaction simulation failed: This transaction has already been processed'')) \<and>
   message_includes
     (JsError ''Transaction simulation failed: This transaction has already been processed'')
     ''This transaction has already been processed'' \<and>
   \<not> (isBlockhashError
         (JsError ''Transaction simulation failed: This transaction has already been processed'') \<and>
       (1::int) + 1 < 3) \<and>
   sendAndConfirmTransaction_loop landed_world 3 1 (Some (JsError ''Signature sigA has expired: block height exceeded.'')) =
     ([Send 2, SendFailed 2],
      Inl (JsError ''Transaction simulation failed: This transaction has already been processed'')) \<and>
   sendTransactionWithRetry_loop landed_world 3 1 (Some (JsError ''Signature sigA has expired: block height exceeded.'')) =
     ([Send 2, SendFailed 2],
      Inl (JsError ''Transaction simulation failed: This transaction has already been processed''))"
proof -
  have h2: "try_attempt (1 + 1) (landed_world (1 + 1)) =
     ([Send 2, SendFailed 2],
      Inl (JsError ''Transaction simulation failed: This transaction has already been processed''))"
    by (simp add: landed_world_def)
  have h3: "message_includes
     (JsError ''Transaction simulation failed: This transaction has already been processed'')
     ''This transaction has already been processed''"
    by code_simp
  have h4: "\<not> (isBlockhashError
         (JsError ''Transaction simulation failed: This transaction has already been processed'') \<and>
       (1::int) + 1 < 3)"
    by code_simp
  show ?thesis
    using already_processed_is_thrown [of 1 3 landed_world "[Send 2, SendFailed 2]"
        "JsError ''Transaction simulation failed: This transaction has already been processed''"
        "Some (JsError ''Signature sigA has expired: block height exceeded.'')"]
      h2 h3 h4
    by simp
qed

text \<open>
  C3 as stated fails. With three attempts allowed, the first confirmation times out
  and both functions throw the timeout after one send; no second attempt is made.
\<close>

theorem timeout_not_retried_counterexample:
  "sendAndConfirmTransaction timeout_world 3 =
     ([Send 1, ConfirmSettled 1], Inl (JsError ''Transaction confirmation timeout'')) \<and>
   sendTransactionWithRetry timeout_world 3 =
     ([Send 1, ConfirmSettled 1], Inl (JsError ''Transaction confirmation timeout''))"
  by code_simp

text \<open>
  C3, amended. Whenever the confirmation of an attempt is not observed within the
  per-attempt timeout, both loops end at that attempt and throw the error
  "Transaction confirmation timeout", whether or not attempts remain; the timeout is
  never classified as retryable and no new attempt is begun. Only errors whose message
  contains "block height exceeded", "blockhash not found" or "invalid blockhash" are
  retried: on any other error both loops end at that attempt and throw it.
\<close>

theorem confirmation_timeout_is_thrown:
  "(attempt0 < maxRetries \<and> w (attempt0 + 1) = SendReturns signature TimerFired \<longrightarrow>
      sendAndConfirmTransaction_loop w maxRetries attempt0 lastError =
        ([Send (attempt0 + 1), ConfirmSettled (attempt0 + 1)], Inl timeout_error) \<and>
      sendTransactionWithRetry_loop w maxRetries attempt0 lastError =
        ([Send (attempt0 + 1), ConfirmSettled (attempt0 + 1)], Inl timeout_error)) \<and>
   (attempt0 < maxRetries \<and> try_attempt (attempt0 + 1) (w (attempt0 + 1)) = (evs, Inl e) \<and>
    \<not> message_includes e ''block height exceeded'' \<and>
    \<not> message_includes e ''blockhash not found'' \<and>
    \<not> message_includes e ''invalid blockhash'' \<longrightarrow>
      sendAndConfirmTransaction_loop w maxRetries attempt0 lastError = (evs, Inl e) \<and>
      sendTransactionWithRetry_loop w maxRetries attempt0 lastError = (evs, Inl e))"
proof -
  have 1: "sendAndConfirmTransaction_loop w maxRetries attempt0 lastError =
        ([Send (attempt0 + 1), ConfirmSettled (attempt0 + 1)], Inl timeout_error)"
    if h: "attempt0 < maxRetries" "w (attempt0 + 1) = SendReturns signature TimerFired"
  proof -
    have "try_attempt (attempt0 + 1) (w (attempt0 + 1)) =
          ([Send (attempt0 + 1), ConfirmSettled (attempt0 + 1)], Inl timeout_error)"
      using h(2) by simp
    then show ?thesis
      using h(1) timeout_not_blockhash by (simp add: sact_throw)
  qed
  have 2: "sendAndConfirmTransaction_loop w maxRetries attempt0 lastError = (evs, Inl e)"
    if h: "attempt0 < maxRetries" "try_attempt (attempt0 + 1) (w (attempt0 + 1)) = (evs, Inl e)"
      "\<not> message_includes e ''block height exceeded''"
      "\<not> message_includes e ''blockhash not found''"
      "\<not> message_includes e ''invalid blockhash''"
  proof -
    from h(3-5) have "\<not> isBlockhashError e"
      by (simp add: isBlockhashError_def)
    with h(1,2) show ?thesis by (simp add: sact_throw)
  qed
  show ?thesis
    unfolding swr_eq_sact using 1 2 by blast
qed

theorem confirmation_timeout_is_thrown_witness:
  "(0::int) < 3 \<and> timeout_world (0 + 1) = SendReturns ''sigA'' TimerFired \<and>
   sendAndConfirmTransaction_loop timeout_world 3 0 None =
     ([Send 1, ConfirmSettled 1], Inl timeout_error) \<and>
   sendTransactionWithRetry_loop timeout_world 3 0 None =
     ([Send 1, ConfirmSettled 1], Inl timeout_error) \<and>
   try_attempt (0 + 1) (insufficient_world (0 + 1)) =
     ([Send 1, SendFailed 1], Inl (JsError ''Transfer: insufficient funds for fee'')) \<and>
   \<not> message_includes (JsError ''Transfer: insufficient funds for fee'') ''block height exceeded'' \<and>
   \<not> message_includes (JsError ''Transfer: insufficient funds for fee'') ''blockhash not found'' \<and>
   \<not> message_includes (JsError ''Transfer: insufficient funds for fee'') ''invalid blockhash'' \<and>
   sendAndConfirmTransaction_loop insufficient_world 3 0 None =
     ([Send 1, SendFailed 1], Inl (JsError ''Transfer: insufficient funds for fee'')) \<and>
   sendTransactionWithRetry_loop insufficient_world 3 0 None =
     ([Send 1, SendFailed 1], Inl (JsError ''Transfer: insufficient funds for fee''))"
proof -
  have a: "timeout_world (0 + 1) = SendReturns ''sigA'' TimerFired"
    by (simp add: timeout_world_def)
  have b: "try_attempt (0 + 1) (insufficient_world (0 + 1)) =
     ([Send 1, SendFailed 1], Inl (JsError ''Transfer: insufficient funds for fee''))"
    by (simp add: insufficient_world_def)
  have c: "\<not> message_includes (JsError ''Transfer: insufficient funds for fee'') ''block height exceeded''"
    "\<not> message_includes (JsError ''Transfer: insufficient funds for fee'') ''blockhash not found''"
    "\<not> message_includes (JsError ''Transfer: insufficient funds for fee'') ''invalid blockhash''"
    by code_simp+
  note t1 = confirmation_timeout_is_thrown [of 0 3 timeout_world "''sigA''" None "[]" timeout_error]
  note t2 = confirmation_timeout_is_thrown [of 0 3 insufficient_world "''sigA''" None
      "[Send 1, SendFailed 1]" "JsError ''Transfer: insufficient funds for fee''"]
  from t1 a have d: "sendAndConfirmTransaction_loop timeout_world 3 0 None =
     ([Send 1, ConfirmSettled 1], Inl timeout_error) \<and>
   sendTransactionWithRetry_loop timeout_world 3 0 None =
     ([Send 1, ConfirmSettled 1], Inl timeout_error)"
    by simp
  from t2 b c have e: "sendAndConfirmTransaction_loop insufficient_world 3 0 None =
     ([Send 1, SendFailed 1], Inl (JsError ''Transfer: insufficient funds for fee'')) \<and>
   sendTransactionWithRetry_loop insufficient_world 3 0 None =
     ([Send 1, SendFailed 1], Inl (JsError ''Transfer: insufficient funds for fee''))"
    by simp
  from a b c d e show ?thesis by simp
qed

text \<open>
  C4 as stated fails. The send returns the signature \<open>sigA\<close>, the confirmation times
  out on the only attempt allowed, and what reaches the caller is an error whose
  message is "Transaction confirmation timeout": the signature is not in it.
\<close>

theorem signature_dropped_counterexample:
  "timeout_world 1 = SendReturns ''sigA'' TimerFired \<and>
   sendAndConfirmTransaction timeout_world 1 =
     ([Send 1, ConfirmSettled 1], Inl (JsError ''Transaction confirmation timeout'')) \<and>
   sendTransactionWithRetry timeout_world 1 =
     ([Send 1, ConfirmSettled 1], Inl (JsError ''Transaction confirmation timeout'')) \<and>
   \<not> message_includes (JsError ''Transaction confirmation timeout'') ''sigA''"
  by code_simp

text \<open>
  C4, amended. When a send has returned a signature and that attempt is the last one
  made (every earlier attempt was retried, this one is not), the call ends with that
  attempt's outcome. If the confirmation succeeds, the signature of that send is
  returned. If the confirmation times out, the call throws an error whose message is
  exactly "Transaction confirmation timeout"; a signature (some 88 characters) is
  longer than that message, so the error does not carry it. If the confirmation fails
  in another way, also when retries are exhausted by expiry, the call throws the error
  of that confirmation as it is: nothing is attached to it.
\<close>

theorem last_attempt_outcome_surfaced:
  assumes "0 \<le> attempt0" and "attempt0 < maxRetries"
    and "\<forall>k. 1 \<le> k \<and> k \<le> attempt0 \<longrightarrow> attempt_retried w maxRetries k"
    and "w (attempt0 + 1) = SendReturns signature c"
    and "\<not> attempt_retried w maxRetries (attempt0 + 1)"
  shows "snd (sendTransactionWithRetry w maxRetries) = snd (sendAndConfirmTransaction w maxRetries) \<and>
         (c = ConfirmedOk \<longrightarrow> snd (sendAndConfirmTransaction w maxRetries) = Inr signature) \<and>
         (c = TimerFired \<longrightarrow>
            snd (sendAndConfirmTransaction w maxRetries) =
              Inl (JsError ''Transaction confirmation timeout'') \<and>
            (length ''Transaction confirmation timeout'' < length signature \<longrightarrow>
               \<not> message_includes (JsError ''Transaction confirmation timeout'') signature)) \<and>
         (c = ConfirmThrows e \<longrightarrow> snd (sendAndConfirmTransaction w maxRetries) = Inl e) \<and>
         (c = ConfirmedWithErr j \<longrightarrow>
            snd (sendAndConfirmTransaction w maxRetries) =
              Inl (JsError (''Transaction confirmed but failed: '' @ j)))"
proof -
  obtain evs r where ta: "try_attempt (attempt0 + 1) (w (attempt0 + 1)) = (evs, r)"
    by force
  have here: "snd (sendAndConfirmTransaction_loop w maxRetries attempt0 None) = r"
  proof (cases r)
    case (Inr s)
    with assms(2) ta show ?thesis by (simp add: sact_return)
  next
    case (Inl x)
    with assms(5) ta have "\<not> (isBlockhashError x \<and> attempt0 + 1 < maxRetries)"
      by (simp add: attempt_retried_def)
    with assms(2) ta Inl show ?thesis by (simp add: sact_throw)
  qed
  from sact_reach [OF assms(1-3), of None] here
  have top: "snd (sendAndConfirmTransaction w maxRetries) = r"
    by simp
  have r: "r = (case confirmationPromise c of Inl x \<Rightarrow> Inl x | Inr u \<Rightarrow> Inr signature)"
    using ta assms(4) by simp
  have len: "length ''Transaction confirmation timeout'' < length signature \<longrightarrow>
      \<not> message_includes (JsError ''Transaction confirmation timeout'') signature"
    using str_includes_length [of "''Transaction confirmation timeout''" signature]
    by (auto simp add: message_includes_def)
  from top r len show ?thesis
    by (auto simp add: swr_eq_sact_top timeout_error_def)
qed

theorem last_attempt_outcome_surfaced_witness:
  "(0::int) \<le> 0 \<and> (0::int) < 3 \<and> timeout_world (0 + 1) = SendReturns ''sigA'' TimerFired \<and>
   \<not> attempt_retried timeout_world 3 (0 + 1) \<and>
   snd (sendAndConfirmTransaction timeout_world 3) = Inl (JsError ''Transaction confirmation timeout'') \<and>
   snd (sendTransactionWithRetry timeout_world 3) = Inl (JsError ''Transaction confirmation timeout'') \<and>
   (0::int) \<le> 2 \<and> (2::int) < 3 \<and>
   attempt_retried expiring_world 3 1 \<and> attempt_retried expiring_world 3 2 \<and>
   expiring_world (2 + 1) =
     SendReturns ''sigA'' (ConfirmThrows (JsError ''Signature sigA has expired: block height exceeded.'')) \<and>
   \<not> attempt_retried expiring_world 3 (2 + 1) \<and>
   snd (sendAndConfirmTransaction expiring_world 3) =
     Inl (JsError ''Signature sigA has expired: block height exceeded.'') \<and>
   confirming_world (0 + 1) = SendReturns ''sigA'' ConfirmedOk \<and>
   \<not> attempt_retried confirming_world 3 (0 + 1) \<and>
   snd (sendAndConfirmTransaction confirming_world 3) = Inr ''sigA''"
proof -
  have none: "\<forall>k. 1 \<le> k \<and> k \<le> (0::int) \<longrightarrow> attempt_retried x 3 k" for x
    by auto
  have a: "timeout_world (0 + 1) = SendReturns ''sigA'' TimerFired"
    by (simp add: timeout_world_def)
  have b: "\<not> attempt_retried timeout_world 3 (0 + 1)"
    by code_simp
  have c: "expiring_world (2 + 1) =
     SendReturns ''sigA'' (ConfirmThrows (JsError ''Signature sigA has expired: block height exceeded.''))"
    by (simp add: expiring_world_def)
  have d: "\<not> attempt_retried expiring_world 3 (2 + 1)"
    by code_simp
  have e: "confirming_world (0 + 1) = SendReturns ''sigA'' ConfirmedOk"
    by (simp add: confirming_world_def)
  have f: "\<not> attempt_retried confirming_world 3 (0 + 1)"
    by code_simp
  have g: "attempt_retried expiring_world 3 1" "attempt_retried expiring_world 3 2"
    using expiring_world_retried by simp_all
  note t1 = last_attempt_outcome_surfaced [of 0 3 timeout_world "''sigA''" TimerFired
      "JsError ''x''" "''j''"]
  note t2 = last_attempt_outcome_surfaced [of 2 3 expiring_world "''sigA''"
      "ConfirmThrows (JsError ''Signature sigA has expired: block height exceeded.'')"
      "JsError ''Signature sigA has expired: block height exceeded.''" "''j''"]
  note t3 = last_attempt_outcome_surfaced [of 0 3 confirming_world "''sigA''" ConfirmedOk
      "JsError ''x''" "''j''"]
  from t1 none a b have r1:
    "snd (sendAndConfirmTransaction timeout_world 3) = Inl (JsError ''Transaction confirmation timeout'') \<and>
     snd (sendTransactionWithRetry timeout_world 3) = Inl (JsError ''Transaction confirmation timeout'')"
    by simp
  from t2 expiring_world_retried c d have r2:
    "snd (sendAndConfirmTransaction expiring_world 3) =
       Inl (JsError ''Signature sigA has expired: block height exceeded.'')"
    by simp
  from t3 none e f have r3: "snd (sendAndConfirmTransaction confirming_world 3) = Inr ''sigA''"
    by simp
  from a b c d e f g r1 r2 r3 show ?thesis by simp
qed



text \<open>
  C7 as stated fails. The first send is refused with a message that contains
  "insufficient funds" and also "blockhash not found"; with attempts remaining the
  \<open>catch\<close> chain tests the blockhash phrases first, waits, and sends again.
\<close>

theorem insufficient_funds_retried_counterexample:
  "mixed_message_world 1 =
     SendThrows (JsError ''Simulation failed: blockhash not found; insufficient funds for fee'') \<and>
   message_includes (JsError ''Simulation failed: blockhash not found; insufficient funds for fee'')
     ''insufficient funds'' \<and>
   sendAndConfirmTransaction mixed_message_world 3 =
     ([Send 1, SendFailed 1, Delay 1 1000, Send 2, ConfirmSettled 2], Inr ''sigB'')"
  by code_simp

text \<open>
  C7, amended. If a submission attempt fails with an error whose message contains
  "insufficient funds", and the error is not retried as a blockhash error (its message
  contains none of the blockhash phrases, or no attempt remains),
  \<open>sendAndConfirmTransaction\<close> throws that error at once: the attempt's send is the last
  event of the run, however many attempts remain.
\<close>

theorem insufficient_funds_is_terminal:
  assumes "attempt0 < maxRetries"
    and "w (attempt0 + 1) = SendThrows e"
    and "message_includes e ''insufficient funds''"
    and "\<not> (isBlockhashError e \<and> attempt0 + 1 < maxRetries)"
  shows "sendAndConfirmTransaction_loop w maxRetries attempt0 lastError =
           ([Send (attempt0 + 1), SendFailed (attempt0 + 1)], Inl e)"
proof -
  have "try_attempt (attempt0 + 1) (w (attempt0 + 1)) =
          ([Send (attempt0 + 1), SendFailed (attempt0 + 1)], Inl e)"
    using assms(2) by simp
  then show ?thesis
    using assms(1,4) by (simp add: sact_throw)
qed

theorem insufficient_funds_is_terminal_witness:
  "(0::int) < 3 \<and>
   insufficient_world (0 + 1) = SendThrows (JsError ''Transfer: insufficient funds for fee'') \<and>
   message_includes (JsError ''Transfer: insufficient funds for fee'') ''insufficient funds'' \<and>
   \<not> (isBlockhashError (JsError ''Transfer: insufficient funds for fee'') \<and> (0::int) + 1 < 3) \<and>
   sendAndConfirmTransaction_loop insufficient_world 3 0 None =
     ([Send 1, SendFailed 1], Inl (JsError ''Transfer: insufficient funds for fee''))"
proof -
  have h2: "insufficient_world (0 + 1) = SendThrows (JsError ''Transfer: insufficient funds for fee'')"
    by (simp add: insufficient_world_def)
  have h3: "message_includes (JsError ''Transfer: insufficient funds for fee'') ''insufficient funds''"
    by code_simp
  have h4: "\<not> (isBlockhashError (JsError ''Transfer: insufficient funds for fee'') \<and> (0::int) + 1 < 3)"
    by code_simp
  show ?thesis
    using insufficient_funds_is_terminal [of 0 3 insufficient_world
        "JsError ''Transfer: insufficient funds for fee''" None]
      h2 h3 h4
    by simp
qed

section \<open>The precondition resolver: idempotent creation\<close>

text \<open>
  C6. When the token account is not found and the creation submission fails with
  \<open>error\<close>: if the message of \<open>error\<close> contains "already in use" the function returns
  the associated token account address, and otherwise it rethrows \<open>error\<close>.
\<close>

theorem creation_race_is_success:
  assumes "getAssociatedTokenAddress mint owner = Inr address"
    and "tokenAccount \<noteq> AccountExists"
    and "snd (sendAndConfirmTransaction w 3) = Inl error"
  shows "(message_includes error ''already in use'' \<longrightarrow>
            getOrCreateAssociatedTokenAccount getAssociatedTokenAddress tokenAccount w mint owner
              = Inr address) \<and>
         (\<not> message_includes error ''already in use'' \<longrightarrow>
            getOrCreateAssociatedTokenAccount getAssociatedTokenAddress tokenAccount w mint owner
              = Inl error)"
proof -
  have "getOrCreate_try getAssociatedTokenAddress tokenAccount w mint owner = Inl error"
    using assms by (cases tokenAccount) (simp_all add: getOrCreate_try_def)
  then show ?thesis
    using assms(1) by (simp add: getOrCreateAssociatedTokenAccount_def)
qed

theorem creation_race_is_success_witness:
  "derive_address ''mintM'' ''ownerO'' = Inr ''ata:mintM:ownerO'' \<and>
   AccountNull \<noteq> AccountExists \<and>
   snd (sendAndConfirmTransaction racing_world 3) =
     Inl (JsError ''Allocate: account Address already in use'') \<and>
   message_includes (JsError ''Allocate: account Address already in use'') ''already in use'' \<and>
   getOrCreateAssociatedTokenAccount derive_address AccountNull racing_world ''mintM'' ''ownerO''
     = Inr ''ata:mintM:ownerO'' \<and>
   snd (sendAndConfirmTransaction insufficient_world 3) =
     Inl (JsError ''Transfer: insufficient funds for fee'') \<and>
   \<not> message_includes (JsError ''Transfer: insufficient funds for fee'') ''already in use'' \<and>
   getOrCreateAssociatedTokenAccount derive_address AccountNull insufficient_world ''mintM'' ''ownerO''
     = Inl (JsError ''Transfer: insufficient funds for fee'')"
proof -
  have a: "derive_address ''mintM'' ''ownerO'' = Inr ''ata:mintM:ownerO''"
    by (simp add: derive_address_def)
  have b: "AccountNull \<noteq> AccountExists"
    by simp
  have c: "snd (sendAndConfirmTransaction racing_world 3) =
     Inl (JsError ''Allocate: account Address already in use'')"
    by code_simp
  have d: "message_includes (JsError ''Allocate: account Address already in use'') ''already in use''"
    by code_simp
  have e: "snd (sendAndConfirmTransaction insufficient_world 3) =
     Inl (JsError ''Transfer: insufficient funds for fee'')"
    by code_simp
  have f: "\<not> message_includes (JsError ''Transfer: insufficient funds for fee'') ''already in use''"
    by code_simp
  note t1 = creation_race_is_success [of derive_address "''mintM''" "''ownerO''"
      "''ata:mintM:ownerO''" AccountNull racing_world
      "JsError ''Allocate: account Address already in use''"]
  note t2 = creation_race_is_success [of derive_address "''mintM''" "''ownerO''"
      "''ata:mintM:ownerO''" AccountNull insufficient_world
      "JsError ''Transfer: insufficient funds for fee''"]
  from t1 a b c d
  have g: "getOrCreateAssociatedTokenAccount derive_address AccountNull racing_world ''mintM'' ''ownerO''
     = Inr ''ata:mintM:ownerO''"
    by blast
  from t2 a b e f
  have h: "getOrCreateAssociatedTokenAccount derive_address AccountNull insufficient_world ''mintM'' ''ownerO''
     = Inl (JsError ''Transfer: insufficient funds for fee'')"
    by blast
  from a b c d e f g h show ?thesis by blast
qed

section \<open>The transaction history store: bounded and newest first\<close>

lemma take_50_cons: "take 50 (t # take 50 xs) = take 50 (t # xs)"
proof -
  have "take 50 (t # take 50 xs) = t # take 49 (take 50 xs)"
    by (simp add: take_Cons')
  also have "\<dots> = t # take 49 xs"
    by simp
  also have "\<dots> = take 50 (t # xs)"
    by (simp add: take_Cons')
  finally show ?thesis .
qed

lemma store_run_newest_first:
  "transactions state = take 50 acc \<Longrightarrow>
   transactions (store_run ops state) = take 50 (newest_first ops acc)"
proof (induction ops arbitrary: state acc)
  case Nil
  then show ?case by simp
next
  case (Cons x xs)
  show ?case
  proof (cases x)
    case (AddTransaction t)
    have "transactions (store_step x state) = take 50 (t # acc)"
      using Cons.prems AddTransaction by (simp add: addTransaction_def take_50_cons)
    from Cons.IH [OF this] AddTransaction show ?thesis by simp
  next
    case ClearTransactions
    have "transactions (store_step x state) = take 50 []"
      using ClearTransactions by (simp add: clearTransactions_def)
    from Cons.IH [OF this] ClearTransactions show ?thesis by simp
  qed
qed

text \<open>
  C10. After any sequence of \<open>addTransaction\<close> and \<open>clearTransactions\<close> from the empty
  store, the list has at most 50 entries and is ordered newest first: it is the
  first 50 of the transactions added since the last clear, the most recent in front.
\<close>

theorem history_bounded_newest_first:
  "length (transactions (store_run ops empty_store)) \<le> 50 \<and>
   transactions (store_run ops empty_store) = take 50 (newest_first ops []) \<and>
   transactions (addTransaction t state) = take 50 (t # transactions state) \<and>
   transactions (clearTransactions state) = []"
proof -
  have "transactions (store_run ops empty_store) = take 50 (newest_first ops [])"
    by (rule store_run_newest_first) (simp add: empty_store_def)
  then show ?thesis
    by (simp add: addTransaction_def clearTransactions_def)
qed

section \<open>The connection pool: size, initialisation, reuse\<close>

lemma push_connections_fields:
  "connectionInitialized (push_connections endpoint n st) = connectionInitialized st \<and>
   connectionCache (push_connections endpoint n st) = connectionCache st \<and>
   length (connectionPool (push_connections endpoint n st)) = length (connectionPool st) + n"
  by (induction endpoint n st rule: push_connections.induct) simp_all

lemma init_twice:
  "initConnectionPool hasWindow endpoint' size' (initConnectionPool hasWindow endpoint size0 st) =
   initConnectionPool hasWindow endpoint size0 st"
  by (simp add: initConnectionPool_def push_connections_fields)

lemma get_keeps_pool:
  "connectionPool (snd (getCachedConnection endpoint commitment st)) = connectionPool st \<and>
   connectionInitialized (snd (getCachedConnection endpoint commitment st)) = connectionInitialized st"
  by (simp add: getCachedConnection_def Let_def split: option.split)

text \<open>The pool is filled at most once: it is empty until the flag is set.\<close>

lemma pool_step_invariant:
  assumes "\<not> connectionInitialized st \<longrightarrow> connectionPool st = []"
    and "length (connectionPool st) \<le> n"
    and "init_size_le n x"
  shows "(\<not> connectionInitialized (pool_step hasWindow x st) \<longrightarrow>
            connectionPool (pool_step hasWindow x st) = []) \<and>
         length (connectionPool (pool_step hasWindow x st)) \<le> n"
proof (cases x)
  case (InitPool endpoint size0)
  with assms show ?thesis
    by (auto simp add: initConnectionPool_def push_connections_fields)
next
  case (GetConnection endpoint commitment)
  with assms show ?thesis
    by (simp add: get_keeps_pool)
qed

lemma pool_run_invariant:
  "\<not> connectionInitialized st \<longrightarrow> connectionPool st = [] \<Longrightarrow>
   length (connectionPool st) \<le> n \<Longrightarrow> list_all (init_size_le n) ops \<Longrightarrow>
   length (connectionPool (pool_run hasWindow ops st)) \<le> n"
proof (induction ops arbitrary: st)
  case Nil
  then show ?case by simp
next
  case (Cons x xs)
  from Cons.prems have x: "init_size_le n x" and xs: "list_all (init_size_le n) xs"
    by simp_all
  from pool_step_invariant [OF Cons.prems(1,2) x, of hasWindow]
  show ?case
    using Cons.IH [of "pool_step hasWindow x st"] xs by simp
qed

text \<open>An entry of the cache is never replaced or removed.\<close>

lemma pool_step_keeps_cache:
  "connectionCache st k = Some c \<Longrightarrow> connectionCache (pool_step hasWindow x st) k = Some c"
proof (cases x)
  case (InitPool endpoint size0)
  assume "connectionCache st k = Some c"
  with InitPool show ?thesis
    by (simp add: initConnectionPool_def push_connections_fields)
next
  case (GetConnection endpoint commitment)
  assume "connectionCache st k = Some c"
  with GetConnection show ?thesis
    by (auto simp add: getCachedConnection_def Let_def split: option.split)
qed

lemma pool_run_keeps_cache:
  "connectionCache st k = Some c \<Longrightarrow> connectionCache (pool_run hasWindow ops st) k = Some c"
  by (induction ops arbitrary: st) (simp_all add: pool_step_keeps_cache)

lemma get_again:
  assumes "connectionPool (pool_run hasWindow ops (snd (getCachedConnection endpoint commitment st)))
             = connectionPool st"
  shows "fst (getCachedConnection endpoint commitment
                (pool_run hasWindow ops (snd (getCachedConnection endpoint commitment st))))
           = fst (getCachedConnection endpoint commitment st)"
proof (cases "length (connectionPool st) > 0")
  case True
  with assms show ?thesis
    by (simp add: getCachedConnection_def)
next
  case False
  define st1 where "st1 = snd (getCachedConnection endpoint commitment st)"
  define c1 where "c1 = fst (getCachedConnection endpoint commitment st)"
  have "connectionCache st1 (endpoint @ ''-'' @ commitment) = Some c1"
    using False unfolding st1_def c1_def
    by (simp add: getCachedConnection_def Let_def split: option.split)
  then have "connectionCache (pool_run hasWindow ops st1) (endpoint @ ''-'' @ commitment) = Some c1"
    by (rule pool_run_keeps_cache)
  moreover have "connectionPool (pool_run hasWindow ops st1) = []"
    using assms False unfolding st1_def by simp
  ultimately have "fst (getCachedConnection endpoint commitment (pool_run hasWindow ops st1)) = c1"
    by (simp add: getCachedConnection_def)
  then show ?thesis
    unfolding st1_def c1_def .
qed

text \<open>
  C8 as stated fails. A connection is asked for before the pool is initialised and
  again after: the first call makes and caches a connection, the second returns the
  first connection of the pool, which is another object.
\<close>

theorem cached_connection_changes_counterexample:
  "fst (getCachedConnection ''https://api.devnet.solana.com'' ''processed'' initial_pool_state) =
     \<lparr>conn_id = 0, conn_endpoint = ''https://api.devnet.solana.com'',
      conn_commitment = ''processed''\<rparr> \<and>
   fst (getCachedConnection ''https://api.devnet.solana.com'' ''processed''
     (initConnectionPool True ''https://api.devnet.solana.com'' 2
       (snd (getCachedConnection ''https://api.devnet.solana.com'' ''processed'' initial_pool_state)))) =
     \<lparr>conn_id = 1, conn_endpoint = ''https://api.devnet.solana.com'',
      conn_commitment = ''confirmed''\<rparr>"
  by (simp add: getCachedConnection_def initConnectionPool_def initial_pool_state_def Let_def
      numeral_2_eq_2)

text \<open>
  C8, amended. The pool never holds more connections than the size given to
  \<open>initConnectionPool\<close>; a second call of \<open>initConnectionPool\<close> changes nothing; two
  calls of \<open>getCachedConnection\<close> with the same endpoint and commitment return the same
  connection object when the pool was not filled between them; and once the pool
  holds a connection every call returns the first connection of the pool, whatever
  endpoint and commitment it asks for.
\<close>

theorem pool_bounded_and_reused:
  "(list_all (init_size_le n) ops \<longrightarrow>
      length (connectionPool (pool_run hasWindow ops initial_pool_state)) \<le> n) \<and>
   initConnectionPool hasWindow endpoint' size' (initConnectionPool hasWindow endpoint size0 st) =
     initConnectionPool hasWindow endpoint size0 st \<and>
   (connectionPool (pool_run hasWindow ops (snd (getCachedConnection endpoint commitment st)))
      = connectionPool st \<longrightarrow>
    fst (getCachedConnection endpoint commitment
          (pool_run hasWindow ops (snd (getCachedConnection endpoint commitment st))))
      = fst (getCachedConnection endpoint commitment st)) \<and>
   (connectionPool st \<noteq> [] \<longrightarrow>
      getCachedConnection endpoint commitment st = (connectionPool st ! 0, st))"
proof -
  have "list_all (init_size_le n) ops \<longrightarrow>
      length (connectionPool (pool_run hasWindow ops initial_pool_state)) \<le> n"
    using pool_run_invariant [of initial_pool_state n ops hasWindow]
    by (simp add: initial_pool_state_def)
  moreover have "connectionPool st \<noteq> [] \<longrightarrow>
      getCachedConnection endpoint commitment st = (connectionPool st ! 0, st)"
    by (simp add: getCachedConnection_def)
  ultimately show ?thesis
    using init_twice [of hasWindow endpoint' size' endpoint size0 st]
      get_again [of hasWindow ops endpoint commitment st]
    by blast
qed

theorem pool_bounded_and_reused_witness:
  "list_all (init_size_le 2)
     [GetConnection ''https://api.devnet.solana.com'' ''processed'',
      InitPool ''https://api.devnet.solana.com'' 2,
      InitPool ''https://api.devnet.solana.com'' 2,
      GetConnection ''https://api.devnet.solana.com'' ''processed''] \<and>
   length (connectionPool (pool_run True
     [GetConnection ''https://api.devnet.solana.com'' ''processed'',
      InitPool ''https://api.devnet.solana.com'' 2,
      InitPool ''https://api.devnet.solana.com'' 2,
      GetConnection ''https://api.devnet.solana.com'' ''processed''] initial_pool_state)) = 2 \<and>
   connectionPool (pool_run True [GetConnection ''https://api.mainnet-beta.solana.com'' ''processed'']
       (snd (getCachedConnection ''https://api.devnet.solana.com'' ''processed'' initial_pool_state)))
     = connectionPool initial_pool_state \<and>
   fst (getCachedConnection ''https://api.devnet.solana.com'' ''processed''
         (pool_run True [GetConnection ''https://api.mainnet-beta.solana.com'' ''processed'']
           (snd (getCachedConnection ''https://api.devnet.solana.com'' ''processed'' initial_pool_state))))
     = fst (getCachedConnection ''https://api.devnet.solana.com'' ''processed'' initial_pool_state) \<and>
   connectionPool (initConnectionPool True ''https://api.devnet.solana.com'' 2 initial_pool_state) \<noteq> [] \<and>
   conn_endpoint (fst (getCachedConnection ''https://api.mainnet-beta.solana.com'' ''processed''
       (initConnectionPool True ''https://api.devnet.solana.com'' 2 initial_pool_state)))
     = ''https://api.devnet.solana.com''"
proof -
  let ?dev = "''https://api.devnet.solana.com''"
  let ?main = "''https://api.mainnet-beta.solana.com''"
  let ?ops = "[GetConnection ?dev ''processed'', InitPool ?dev 2, InitPool ?dev 2,
      GetConnection ?dev ''processed'']"
  have a: "list_all (init_size_le 2) ?ops"
    by simp
  have b: "length (connectionPool (pool_run True ?ops initial_pool_state)) = 2"
    by (simp add: getCachedConnection_def initConnectionPool_def initial_pool_state_def Let_def
        numeral_2_eq_2)
  have c: "connectionPool (pool_run True [GetConnection ?main ''processed'']
       (snd (getCachedConnection ?dev ''processed'' initial_pool_state)))
     = connectionPool initial_pool_state"
    by (simp add: get_keeps_pool)
  have d: "connectionPool (initConnectionPool True ?dev 2 initial_pool_state) \<noteq> []"
    by (simp add: initConnectionPool_def initial_pool_state_def numeral_2_eq_2)
  note t2 = pool_bounded_and_reused [of 2 "[GetConnection ?main ''processed'']" True "?dev" 2 "?dev" 2
      initial_pool_state "''processed''"]
  note t3 = pool_bounded_and_reused [of 2 "?ops" True "?dev" 2 "?main" 2
      "initConnectionPool True ?dev 2 initial_pool_state" "''processed''"]
  from t2 c have e: "fst (getCachedConnection ?dev ''processed''
         (pool_run True [GetConnection ?main ''processed'']
           (snd (getCachedConnection ?dev ''processed'' initial_pool_state))))
     = fst (getCachedConnection ?dev ''processed'' initial_pool_state)"
    by blast
  from t3 d have "getCachedConnection ?main ''processed''
       (initConnectionPool True ?dev 2 initial_pool_state)
     = (connectionPool (initConnectionPool True ?dev 2 initial_pool_state) ! 0,
        initConnectionPool True ?dev 2 initial_pool_state)"
    by blast
  then have f: "conn_endpoint (fst (getCachedConnection ?main ''processed''
       (initConnectionPool True ?dev 2 initial_pool_state))) = ?dev"
    by (simp add: initConnectionPool_def initial_pool_state_def numeral_2_eq_2)
  from a b c d e f show ?thesis by blast
qed

section \<open>The confirmation awaiter: backoff and deadline\<close>

lemma confirm_loop_stop:
  "\<not> int elapsed < timeoutMs \<Longrightarrow> confirm_loop poll oversleep timeoutMs elapsed retries = ([], None)"
  by (subst confirm_loop.simps) simp

lemma confirm_loop_answer:
  "int elapsed < timeoutMs \<Longrightarrow> snd (poll retries) = Inr confirmResult \<Longrightarrow>
   confirm_loop poll oversleep timeoutMs elapsed retries = ([], Some confirmResult)"
  by (subst confirm_loop.simps) simp

lemma confirm_loop_retry:
  "int elapsed < timeoutMs \<Longrightarrow> poll_fails poll retries \<Longrightarrow>
   confirm_loop poll oversleep timeoutMs elapsed retries =
     (poll_delay retries #
        fst (confirm_loop poll oversleep timeoutMs
               (elapsed + fst (poll retries) + nat \<lfloor>poll_delay retries\<rfloor> + oversleep retries)
               (retries + 1)),
      snd (confirm_loop poll oversleep timeoutMs
               (elapsed + fst (poll retries) + nat \<lfloor>poll_delay retries\<rfloor> + oversleep retries)
               (retries + 1)))"
  by (subst confirm_loop.simps) (auto simp add: poll_fails_def Let_def case_prod_beta split: sum.splits)

lemma confirm_loop_times_out:
  "r \<le> k \<Longrightarrow>
   \<forall>j. r \<le> j \<and> j < k \<longrightarrow> poll_fails poll j \<and> int (elapsed_after poll oversleep j) < timeoutMs \<Longrightarrow>
   timeoutMs \<le> int (elapsed_after poll oversleep k) \<Longrightarrow>
   confirm_loop poll oversleep timeoutMs (elapsed_after poll oversleep r) r =
     (map poll_delay [r..<k], None)"
proof (induction rule: inc_induct)
  case base
  then show ?case by (simp add: confirm_loop_stop)
next
  case (step n)
  from step.prems(1) step.hyps(1,2)
  have now: "poll_fails poll n" "int (elapsed_after poll oversleep n) < timeoutMs"
    by auto
  from step.prems(1) have
    "\<forall>j. Suc n \<le> j \<and> j < k \<longrightarrow> poll_fails poll j \<and> int (elapsed_after poll oversleep j) < timeoutMs"
    by auto
  from step.IH [OF this step.prems(2)] now step.hyps(2) show ?case
    by (simp add: confirm_loop_retry upt_conv_Cons)
qed

lemma confirm_loop_returns:
  "r \<le> k \<Longrightarrow>
   \<forall>j. r \<le> j \<and> j < k \<longrightarrow> poll_fails poll j \<Longrightarrow>
   \<forall>j. r \<le> j \<and> j \<le> k \<longrightarrow> int (elapsed_after poll oversleep j) < timeoutMs \<Longrightarrow>
   snd (poll k) = Inr confirmResult \<Longrightarrow>
   confirm_loop poll oversleep timeoutMs (elapsed_after poll oversleep r) r =
     (map poll_delay [r..<k], Some confirmResult)"
proof (induction rule: inc_induct)
  case base
  then show ?case by (simp add: confirm_loop_answer)
next
  case (step n)
  from step.prems(1,2) step.hyps(1,2)
  have now: "poll_fails poll n" "int (elapsed_after poll oversleep n) < timeoutMs"
    by auto
  from step.prems(1) have 1: "\<forall>j. Suc n \<le> j \<and> j < k \<longrightarrow> poll_fails poll j"
    by auto
  from step.prems(2) have 2: "\<forall>j. Suc n \<le> j \<and> j \<le> k \<longrightarrow> int (elapsed_after poll oversleep j) < timeoutMs"
    by auto
  from step.IH [OF 1 2 step.prems(3)] now step.hyps(2) show ?case
    by (simp add: confirm_loop_retry upt_conv_Cons)
qed

lemma poll_delay_mono: "r \<le> r' \<Longrightarrow> poll_delay r \<le> poll_delay r'"
proof -
  assume "r \<le> r'"
  then have "((3 / 2)::rat) ^ r \<le> (3 / 2) ^ r'"
    by (simp add: power_increasing)
  then have "(1000::rat) * (3 / 2) ^ r \<le> 1000 * (3 / 2) ^ r'"
    by simp
  then show ?thesis
    unfolding poll_delay_def by (rule min.mono) simp
qed

text \<open>
  C9 as stated fails. With a timeout of one second, the first poll is still in flight
  when the timeout elapses and no result has been obtained; it answers after five
  seconds and the function returns that answer instead of throwing.
\<close>

theorem late_result_returned_counterexample:
  "fst (late_answer 0) = 5000 \<and>
   confirmTransactionWithExponentialBackoff late_answer no_oversleep 1000 =
     ([], Inr (SignatureResult None))"
  by (simp add: late_answer_def confirmTransactionWithExponentialBackoff_def confirm_loop_answer)

text \<open>
  C9, amended. The wait after failed poll \<open>r\<close>, before poll retry \<open>r + 1\<close>, is
  \<open>min (1000 * 1.5 ^ r) 10000\<close> milliseconds, non-decreasing and at most 10 seconds.
  The deadline is looked at only when the loop condition is tested: if the clock has
  reached \<open>timeoutMs\<close> at a test after \<open>k\<close> polls that all failed, the function throws
  the timeout error; if poll \<open>k\<close> answers and the clock was below \<open>timeoutMs\<close> at each
  test up to the one before that poll, the function returns the answer, however long
  the poll took. The only error the function throws is the timeout error.
\<close>

theorem confirmation_polling:
  "((\<forall>j<k. poll_fails poll j \<and> int (elapsed_after poll oversleep j) < timeoutMs) \<and>
    timeoutMs \<le> int (elapsed_after poll oversleep k) \<longrightarrow>
      confirmTransactionWithExponentialBackoff poll oversleep timeoutMs =
        (map poll_delay [0..<k], Inl (confirmation_timed_out timeoutMs))) \<and>
   ((\<forall>j<k. poll_fails poll j) \<and> (\<forall>j\<le>k. int (elapsed_after poll oversleep j) < timeoutMs) \<and>
    snd (poll k) = Inr confirmResult \<longrightarrow>
      confirmTransactionWithExponentialBackoff poll oversleep timeoutMs =
        (map poll_delay [0..<k], Inr confirmResult)) \<and>
   (snd (confirmTransactionWithExponentialBackoff poll oversleep timeoutMs) = Inl error \<longrightarrow>
      error = confirmation_timed_out timeoutMs) \<and>
   poll_delay r = min (1000 * (3 / 2) ^ r) 10000 \<and>
   (r \<le> r' \<longrightarrow> poll_delay r \<le> poll_delay r') \<and>
   poll_delay r \<le> 10000"
proof -
  have a: "confirmTransactionWithExponentialBackoff poll oversleep timeoutMs =
        (map poll_delay [0..<k], Inl (confirmation_timed_out timeoutMs))"
    if "\<forall>j<k. poll_fails poll j \<and> int (elapsed_after poll oversleep j) < timeoutMs"
      and "timeoutMs \<le> int (elapsed_after poll oversleep k)"
    using confirm_loop_times_out [of 0 k poll oversleep timeoutMs] that
    by (simp add: confirmTransactionWithExponentialBackoff_def)
  have b: "confirmTransactionWithExponentialBackoff poll oversleep timeoutMs =
        (map poll_delay [0..<k], Inr confirmResult)"
    if "\<forall>j<k. poll_fails poll j" and "\<forall>j\<le>k. int (elapsed_after poll oversleep j) < timeoutMs"
      and "snd (poll k) = Inr confirmResult"
    using confirm_loop_returns [of 0 k poll oversleep timeoutMs confirmResult] that
    by (simp add: confirmTransactionWithExponentialBackoff_def)
  have c: "error = confirmation_timed_out timeoutMs"
    if "snd (confirmTransactionWithExponentialBackoff poll oversleep timeoutMs) = Inl error"
    using that
    by (auto simp add: confirmTransactionWithExponentialBackoff_def split: prod.splits option.splits)
  have d: "poll_delay r = min (1000 * (3 / 2) ^ r) 10000 \<and> poll_delay r \<le> 10000"
    by (simp add: poll_delay_def)
  from a b c d poll_delay_mono [of r r'] show ?thesis
    by blast
qed

theorem confirmation_polling_witness:
  "poll_fails silent_poll 0 \<and> poll_fails silent_poll 1 \<and> poll_fails silent_poll 2 \<and>
   elapsed_after silent_poll no_oversleep 0 = 0 \<and>
   elapsed_after silent_poll no_oversleep 1 = 31000 \<and>
   elapsed_after silent_poll no_oversleep 2 = 62500 \<and>
   elapsed_after silent_poll no_oversleep 3 = 94750 \<and>
   confirmTransactionWithExponentialBackoff silent_poll no_oversleep 90000 =
     ([1000, 1500, 2250], Inl (JsError ''Transaction confirmation timed out after 90000ms'')) \<and>
   poll_fails third_poll_answers 0 \<and> poll_fails third_poll_answers 1 \<and>
   snd (third_poll_answers 2) = Inr (SignatureResult None) \<and>
   elapsed_after third_poll_answers no_oversleep 2 = 2510 \<and>
   confirmTransactionWithExponentialBackoff third_poll_answers no_oversleep 90000 =
     ([1000, 1500], Inr (SignatureResult None)) \<and>
   (4::nat) \<le> 6 \<and> poll_delay 4 = 10125 / 2 \<and> poll_delay 6 = 10000 \<and>
   poll_delay 4 \<le> poll_delay 6"
proof -
  have three: "j = 0 \<or> j = 1 \<or> j = 2" if "j < 3" for j :: nat
    using that by arith
  have two: "j = 0 \<or> j = 1 \<or> j = 2" if "j \<le> 2" for j :: nat
    using that by arith
  have f: "poll_fails silent_poll 0" "poll_fails silent_poll 1" "poll_fails silent_poll 2"
    by (simp_all add: silent_poll_def poll_fails_def)
  have e: "elapsed_after silent_poll no_oversleep 0 = 0"
    "elapsed_after silent_poll no_oversleep 1 = 31000"
    "elapsed_after silent_poll no_oversleep 2 = 62500"
    "elapsed_after silent_poll no_oversleep 3 = 94750"
    by (simp_all add: numeral_2_eq_2 numeral_3_eq_3 silent_poll_def no_oversleep_def poll_delay_def)
  have g: "poll_fails third_poll_answers 0" "poll_fails third_poll_answers 1"
    "snd (third_poll_answers 2) = Inr (SignatureResult None)"
    by (simp_all add: third_poll_answers_def poll_fails_def)
  have h: "elapsed_after third_poll_answers no_oversleep 0 = 0"
    "elapsed_after third_poll_answers no_oversleep 1 = 1005"
    "elapsed_after third_poll_answers no_oversleep 2 = 2510"
    by (simp_all add: numeral_2_eq_2 third_poll_answers_def no_oversleep_def poll_delay_def)
  have m: "map poll_delay [0..<3] = [1000, 1500, 2250]" "map poll_delay [0..<2] = [1000, 1500]"
    by (simp_all add: upt_rec poll_delay_def power2_eq_square)
  have n: "confirmation_timed_out 90000 = JsError ''Transaction confirmation timed out after 90000ms''"
    by (simp add: confirmation_timed_out_def number_toString_def show_nat.simps)
  have p: "poll_delay 4 = 10125 / 2" "poll_delay 6 = 10000"
    by (simp_all add: poll_delay_def eval_nat_numeral)
  have h1: "\<forall>j<3. poll_fails silent_poll j \<and> int (elapsed_after silent_poll no_oversleep j) < 90000"
  proof (intro allI impI)
    fix j :: nat
    assume "j < 3"
    then consider "j = 0" | "j = 1" | "j = 2"
      using three by blast
    then show "poll_fails silent_poll j \<and> int (elapsed_after silent_poll no_oversleep j) < 90000"
    proof cases
      case 1
      with f(1) e(1) show ?thesis by simp
    next
      case 2
      with f(2) e(2) show ?thesis by simp
    next
      case 3
      with f(3) e(3) show ?thesis by simp
    qed
  qed
  have h2: "(90000::int) \<le> int (elapsed_after silent_poll no_oversleep 3)"
    using e by simp
  have h3: "\<forall>j<2. poll_fails third_poll_answers j"
  proof (intro allI impI)
    fix j :: nat
    assume "j < 2"
    then consider "j = 0" | "j = 1"
      by arith
    then show "poll_fails third_poll_answers j"
      using g(1,2) by cases simp_all
  qed
  have h4: "\<forall>j\<le>2. int (elapsed_after third_poll_answers no_oversleep j) < 90000"
  proof (intro allI impI)
    fix j :: nat
    assume "j \<le> 2"
    then consider "j = 0" | "j = 1" | "j = 2"
      using two by blast
    then show "int (elapsed_after third_poll_answers no_oversleep j) < 90000"
    proof cases
      case 1
      with h(1) show ?thesis by simp
    next
      case 2
      with h(2) show ?thesis by simp
    next
      case 3
      with h(3) show ?thesis by simp
    qed
  qed
  from confirmation_polling [of 3 silent_poll no_oversleep 90000 "SignatureResult None"
      "confirmation_timed_out 90000" 4 6] h1 h2
  have r1: "confirmTransactionWithExponentialBackoff silent_poll no_oversleep 90000 =
     ([1000, 1500, 2250], Inl (JsError ''Transaction confirmation timed out after 90000ms''))"
    unfolding m n by blast
  from confirmation_polling [of 2 third_poll_answers no_oversleep 90000 "SignatureResult None"
      "confirmation_timed_out 90000" 4 6] h3 h4 g(3)
  have r2: "confirmTransactionWithExponentialBackoff third_poll_answers no_oversleep 90000 =
     ([1000, 1500], Inr (SignatureResult None))"
    unfolding m by blast
  have r3: "poll_delay 4 \<le> poll_delay 6"
    using confirmation_polling [of 2 third_poll_answers no_oversleep 90000 "SignatureResult None"
      "confirmation_timed_out 90000" 4 6] by simp
  from f e g h(3) r1 r2 r3 p show ?thesis
    by simp
qed

end
